theory Spec2Isabelle
  imports Complex_Main "HOL-Library.Word"
begin

section \<open>Annotation rendering of rmapi: annotations/pdf\_cairo.go\<close>

text \<open>
  The development embeds the Cairo-based generator of \<^verbatim>\<open>annotations/pdf_cairo.go\<close>.
  Conventions of the embedding:
  \<^item> Go's \<^verbatim>\<open>float64\<close> (and the \<^verbatim>\<open>float32\<close> fields converted to it) are
    modelled by \<^typ>\<open>real\<close>: arithmetic is exact, rounding is not modelled.
  \<^item> The Cairo surface is an external library. It is modelled by the sequence of calls
    issued on it, in order: a function that draws takes the calls issued so far and
    returns them extended.
  \<^item> A Go \<^verbatim>\<open>error\<close> is its message; \<^verbatim>\<open>nil\<close> is \<open>None\<close>.
\<close>

subsection \<open>Data model\<close>

type_synonym float64 = real
type_synonym bytes = "8 word list"
type_synonym error = string

text \<open>
  Modelled from the spec: package \<^verbatim>\<open>encoding/rm\<close> (types \<^verbatim>\<open>Rm\<close>, \<^verbatim>\<open>Layer\<close>,
  \<^verbatim>\<open>Line\<close>, \<^verbatim>\<open>Point\<close> and the brush constants) is not among the sources. The generator
  compares \<^verbatim>\<open>BrushType\<close> with \<^verbatim>\<open>Eraser\<close> and \<^verbatim>\<open>HighlighterV5\<close> only and
  \<^verbatim>\<open>BrushColor\<close> with \<^verbatim>\<open>Black\<close>, \<^verbatim>\<open>White\<close> and \<^verbatim>\<open>Grey\<close> only; every other
  value of these integer-typed enumerations is \<open>OtherBrush n\<close> or \<open>OtherColor n\<close>.
\<close>

datatype BrushType = Eraser | HighlighterV5 | OtherBrush nat

datatype BrushColor = Black | Grey | White | OtherColor nat

record Point =
  X :: float64
  Y :: float64

record Line =
  BrushType :: BrushType
  BrushColor :: BrushColor
  BrushSize :: float64
  Points :: "Point list"

record Layer =
  Lines :: "Line list"

record Rm =
  Layers :: "Layer list"

text \<open>
  Modelled from the spec: package \<^verbatim>\<open>archive\<close> is not among the sources. Of
  \<^verbatim>\<open>archive.Zip\<close> the generator reads \<^verbatim>\<open>Pages\<close> (each with an optional
  \<^verbatim>\<open>Data\<close>), \<^verbatim>\<open>Payload\<close> and \<^verbatim>\<open>Content.FileType\<close>.
\<close>

record Page =
  Data :: "Rm option"

record Zip =
  Pages :: "Page list"
  Payload :: bytes
  FileType :: string

record PdfGeneratorOptions =
  AddPageNumbers :: bool
  AllPages :: bool
  AnnotationsOnly :: bool

record PdfGenerator =
  zipName :: string
  outputFilePath :: string
  options :: PdfGeneratorOptions
  backgroundPDF :: "bytes option"
  template :: bool

definition DeviceWidth :: float64 where
  "DeviceWidth = 1404"

definition DeviceHeight :: float64 where
  "DeviceHeight = 1872"

record PageSize =
  Width :: float64
  Height :: float64

definition rmPageSize :: PageSize where
  "rmPageSize = \<lparr>Width = 445, Height = 594\<rparr>"

definition CreatePdfGenerator :: "string \<Rightarrow> string \<Rightarrow> PdfGeneratorOptions \<Rightarrow> PdfGenerator" where
  "CreatePdfGenerator zn out opts =
     \<lparr>zipName = zn, outputFilePath = out, options = opts, backgroundPDF = None, template = False\<rparr>"

subsection \<open>The surface: calls issued on it\<close>

datatype LineCap = LINE_CAP_BUTT | LINE_CAP_ROUND

datatype LineJoin = LINE_JOIN_ROUND

datatype call =
    Save
  | Restore
  | SetSourceRGB float64 float64 float64
  | SetSourceRGBA float64 float64 float64 float64
  | SetLineWidth float64
  | SetLineCap LineCap
  | SetLineJoin LineJoin
  | MoveTo float64 float64
  | LineTo float64 float64
  | Stroke
  | SelectFontFace string
  | SetFontSize float64
  | ShowText string
  | SetPDFPageSize float64 float64
  | ShowPage

type_synonym surface = "call list"

subsection \<open>Geometry\<close>

definition normalized :: "Point \<Rightarrow> float64 \<Rightarrow> float64 \<times> float64" where
  "normalized p1 scale = (X p1 * scale, Y p1 * scale)"

text \<open>Lines 151-161 of \<^verbatim>\<open>generateAnnotationsOnly\<close>: the scale of a page.\<close>

definition calcScale :: "float64 \<Rightarrow> float64 \<Rightarrow> float64" where
  "calcScale pageWidth pageHeight =
     (let ratio = pageHeight / pageWidth
      in if ratio < 1.33 then pageWidth / DeviceWidth else pageHeight / DeviceHeight)"

subsection \<open>Brush rendering\<close>

definition drawHighlighter :: "surface \<Rightarrow> Line \<Rightarrow> float64 \<Rightarrow> float64 \<Rightarrow> surface" where
  "drawHighlighter surface line scale pageHeight =
     (if length (Points line) < 2 then surface
      else
        let last = length (Points line) - 1;
            (x1, y1) = normalized (Points line ! 0) scale;
            (x2, _) = normalized (Points line ! last) scale;
            width = scale * 30;
            y1 = y1 + width / 2;
            y = pageHeight - y1
        in surface @ [SetSourceRGBA 1.0 1.0 0.0 0.5, SetLineWidth width, SetLineCap LINE_CAP_BUTT,
                      MoveTo x1 y, LineTo x2 y, Stroke])"

text \<open>Lines 304-314 of \<^verbatim>\<open>drawStroke\<close>: the colour switch.\<close>

fun strokeColor :: "BrushColor \<Rightarrow> float64 \<times> float64 \<times> float64" where
  "strokeColor Black = (0.0, 0.0, 0.0)"
| "strokeColor White = (1.0, 1.0, 1.0)"
| "strokeColor Grey = (0.5, 0.5, 0.5)"
| "strokeColor (OtherColor n) = (0.0, 0.0, 0.0)"

text \<open>Lines 319-322 of \<^verbatim>\<open>drawStroke\<close>: the stroke width.\<close>

definition strokeWidth :: "float64 \<Rightarrow> float64" where
  "strokeWidth brushSize =
     (let w = brushSize * 6.0 - 10.8 in if w < 0.5 then 0.5 else w)"

text \<open>Lines 330-340 of \<^verbatim>\<open>drawStroke\<close>: the loop over the points, \<open>i\<close> the index.\<close>

fun drawPath :: "surface \<Rightarrow> nat \<Rightarrow> Point list \<Rightarrow> float64 \<Rightarrow> float64 \<Rightarrow> surface" where
  "drawPath surface i [] scale pageHeight = surface"
| "drawPath surface i (point # rest) scale pageHeight =
     (let (x, y) = normalized point scale;
          y = pageHeight - y
      in drawPath (if i = 0 then surface @ [MoveTo x y] else surface @ [LineTo x y])
           (i + 1) rest scale pageHeight)"

definition drawStroke :: "surface \<Rightarrow> Line \<Rightarrow> float64 \<Rightarrow> float64 \<Rightarrow> surface" where
  "drawStroke surface line scale pageHeight =
     (if length (Points line) < 1 then surface
      else
        let (r, g, b) = strokeColor (BrushColor line);
            s1 = surface @ [SetSourceRGB r g b];
            s2 = s1 @ [SetLineWidth (strokeWidth (BrushSize line))];
            s3 = s2 @ [SetLineCap LINE_CAP_ROUND, SetLineJoin LINE_JOIN_ROUND];
            s4 = drawPath s3 0 (Points line) scale pageHeight
        in s4 @ [Stroke])"

text \<open>Lines 252-265 of \<^verbatim>\<open>drawAnnotations\<close>: the body of the loop over the lines.\<close>

definition drawLine :: "surface \<Rightarrow> Line \<Rightarrow> float64 \<Rightarrow> float64 \<Rightarrow> surface" where
  "drawLine surface line scale pageHeight =
     (if length (Points line) < 1 then surface
      else if BrushType line = Eraser then surface
      else if BrushType line = HighlighterV5 then drawHighlighter surface line scale pageHeight
      else drawStroke surface line scale pageHeight)"

fun drawLines :: "surface \<Rightarrow> Line list \<Rightarrow> float64 \<Rightarrow> float64 \<Rightarrow> surface" where
  "drawLines surface [] scale pageHeight = surface"
| "drawLines surface (line # rest) scale pageHeight =
     drawLines (drawLine surface line scale pageHeight) rest scale pageHeight"

fun drawLayers :: "surface \<Rightarrow> Layer list \<Rightarrow> float64 \<Rightarrow> float64 \<Rightarrow> surface" where
  "drawLayers surface [] scale pageHeight = surface"
| "drawLayers surface (layer # rest) scale pageHeight =
     drawLayers (drawLines surface (Lines layer) scale pageHeight) rest scale pageHeight"

text \<open>
  \<^verbatim>\<open>drawAnnotations\<close> saves the graphics state, draws, and restores it when it returns
  (the deferred call); the error it returns is always \<^verbatim>\<open>nil\<close>.
\<close>

definition drawAnnotations :: "surface \<Rightarrow> Rm \<Rightarrow> float64 \<Rightarrow> float64 \<Rightarrow> surface \<times> error option" where
  "drawAnnotations surface rmData scale pageHeight =
     (let s1 = surface @ [Save];
          s2 = drawLayers s1 (Layers rmData) scale pageHeight
      in (s2 @ [Restore], None))"

text \<open>\<^verbatim>\<open>fmt.Sprintf("%d", n)\<close> for a page number, which is never negative.\<close>

definition digit :: "nat \<Rightarrow> char" where
  "digit d = ''0123456789'' ! d"

function Sprintf_d :: "nat \<Rightarrow> string" where
  "Sprintf_d n = (if n < 10 then [digit n] else Sprintf_d (n div 10) @ [digit (n mod 10)])"
  by pat_completeness auto
termination
  by (relation "measure id") auto

declare Sprintf_d.simps [simp del]

definition drawPageNumber :: "surface \<Rightarrow> nat \<Rightarrow> float64 \<Rightarrow> float64 \<Rightarrow> surface" where
  "drawPageNumber surface pageNum pageWidth pageHeight =
     surface @ [Save, SelectFontFace ''sans-serif'', SetFontSize 8.0, SetSourceRGB 0 0 0,
                MoveTo (pageWidth - 20) (pageHeight - 10), ShowText (Sprintf_d pageNum), Restore]"

subsection \<open>The page loop of \<^verbatim>\<open>generateAnnotationsOnly\<close>\<close>

text \<open>Lines 115-122: the dimensions of the first page.\<close>

definition firstPageSize :: "PdfGenerator \<Rightarrow> float64 \<times> float64" where
  "firstPageSize p =
     (if template p then (Width rmPageSize, Height rmPageSize)
      else (Width rmPageSize, Height rmPageSize))"

text \<open>
  Lines 130-178: the body of the loop over \<^verbatim>\<open>zip.Pages\<close>. The state is the page
  counter and the surface; \<open>numPages\<close> is \<^verbatim>\<open>len(zip.Pages)\<close>. The result carries
  the error of \<^verbatim>\<open>drawAnnotations\<close>, on which the source returns.
\<close>

definition pageStep ::
  "PdfGenerator \<Rightarrow> nat \<Rightarrow> float64 \<Rightarrow> float64 \<Rightarrow> Page \<Rightarrow> nat \<times> surface
     \<Rightarrow> error option \<times> nat \<times> surface" where
  "pageStep p numPages firstWidth firstHeight pageAnnotations st =
     (let (pageCount, pdfSurface) = st;
          hasContent = (Data pageAnnotations \<noteq> None)
      in if \<not> AllPages (options p) \<and> \<not> hasContent then (None, pageCount, pdfSurface)
         else
           let pageCount = pageCount + 1;
               pdfSurface =
                 (if pageCount > 1 then
                    let (pageWidth, pageHeight) =
                          (if template p then (Width rmPageSize, Height rmPageSize)
                           else (Width rmPageSize, Height rmPageSize))
                    in pdfSurface @ [SetPDFPageSize pageWidth pageHeight]
                  else pdfSurface);
               pageWidth = firstWidth;
               pageHeight = firstHeight;
               scale = calcScale pageWidth pageHeight;
               (pdfSurface, err) =
                 (case Data pageAnnotations of
                    Some rmData \<Rightarrow> drawAnnotations pdfSurface rmData scale pageHeight
                  | None \<Rightarrow> (pdfSurface, None))
           in case err of
                Some e \<Rightarrow> (Some e, pageCount, pdfSurface)
              | None \<Rightarrow>
                  let pdfSurface =
                        (if AddPageNumbers (options p)
                         then drawPageNumber pdfSurface pageCount pageWidth pageHeight
                         else pdfSurface);
                      pdfSurface =
                        (if pageCount < numPages \<or> AllPages (options p)
                         then pdfSurface @ [ShowPage] else pdfSurface)
                  in (None, pageCount, pdfSurface))"

fun pageLoop ::
  "PdfGenerator \<Rightarrow> nat \<Rightarrow> float64 \<Rightarrow> float64 \<Rightarrow> Page list \<Rightarrow> nat \<times> surface
     \<Rightarrow> error option \<times> nat \<times> surface" where
  "pageLoop p numPages firstWidth firstHeight [] st = (None, fst st, snd st)"
| "pageLoop p numPages firstWidth firstHeight (pageAnnotations # rest) st =
     (case pageStep p numPages firstWidth firstHeight pageAnnotations st of
        (Some e, pageCount, pdfSurface) \<Rightarrow> (Some e, pageCount, pdfSurface)
      | (None, pageCount, pdfSurface) \<Rightarrow>
          pageLoop p numPages firstWidth firstHeight rest (pageCount, pdfSurface))"

text \<open>
  Lines 115-179 together: the calls issued on the surface between its creation and
  \<^verbatim>\<open>Finish\<close>, with the final page counter.
\<close>

definition renderPages :: "PdfGenerator \<Rightarrow> Zip \<Rightarrow> error option \<times> nat \<times> surface" where
  "renderPages p zp =
     (let (firstWidth, firstHeight) = firstPageSize p
      in pageLoop p (length (Pages zp)) firstWidth firstHeight (Pages zp) (0, []))"

subsection \<open>The environment: files and external collaborators\<close>

text \<open>
  The file system is a map from paths to contents. \<open>random\<close> holds the strings that
  \<^verbatim>\<open>os.CreateTemp\<close> will draw for the \<^verbatim>\<open>*\<close> of its pattern, \<open>createErr\<close> the paths
  that cannot be created or truncated, \<open>writeErr\<close> the paths on which a write fails.
\<close>

record world =
  files :: "string \<rightharpoonup> bytes"
  random :: "string list"
  createErr :: "string \<rightharpoonup> error"
  writeErr :: "string \<rightharpoonup> error"

text \<open>
  The collaborators that are not among the sources, as parameters:
  \<^item> \<open>cairoPDF\<close>: the bytes Cairo writes on \<^verbatim>\<open>Finish\<close> for a surface created with
    the given width and height on which the given calls were issued;
  \<^item> \<open>ReadContext\<close>: \<^verbatim>\<open>api.ReadContext\<close> of pdfcpu, an error or whether the
    document is encrypted;
  \<^item> \<open>MergeRaw\<close>: \<^verbatim>\<open>api.MergeRaw\<close> of pdfcpu on the contents of its readers, in
    order: the bytes it writes to its sink and its error;
  \<^item> \<open>ReadZip\<close>: \<^verbatim>\<open>file.Stat\<close> and \<^verbatim>\<open>zip.Read\<close> on the content of the archive.
\<close>

record extern =
  cairoPDF :: "float64 \<Rightarrow> float64 \<Rightarrow> call list \<Rightarrow> bytes"
  ReadContext :: "bytes \<Rightarrow> error + bool"
  MergeRaw :: "bytes list \<Rightarrow> bytes \<times> error option"
  ReadZip :: "bytes \<Rightarrow> error + Zip"

text \<open>
  \<^verbatim>\<open>os.CreateTemp("", prefix*suffix)\<close>: draws names until one is not an existing file,
  creates that file empty and returns its path.
\<close>

fun pickTemp ::
  "(string \<rightharpoonup> bytes) \<Rightarrow> string \<Rightarrow> string \<Rightarrow> string list \<Rightarrow> (string \<times> string list) option" where
  "pickTemp fs prefix suffix [] = None"
| "pickTemp fs prefix suffix (r # rs) =
     (let name = ''/tmp/'' @ prefix @ r @ suffix
      in if fs name = None then Some (name, rs) else pickTemp fs prefix suffix rs)"

definition CreateTemp :: "string \<Rightarrow> string \<Rightarrow> world \<Rightarrow> error + string \<times> world" where
  "CreateTemp prefix suffix w =
     (case pickTemp (files w) prefix suffix (random w) of
        None \<Rightarrow> Inl ''no temporary file''
      | Some (name, rs) \<Rightarrow> Inr (name, w\<lparr>files := (files w)(name \<mapsto> []), random := rs\<rparr>))"

definition Remove :: "string \<Rightarrow> world \<Rightarrow> world" where
  "Remove path w = w\<lparr>files := (files w)(path := None)\<rparr>"

text \<open>\<^verbatim>\<open>os.Create\<close>: creates the file or truncates it.\<close>

definition Create :: "string \<Rightarrow> world \<Rightarrow> error option \<times> world" where
  "Create path w =
     (case createErr w path of
        Some e \<Rightarrow> (Some e, w)
      | None \<Rightarrow> (None, w\<lparr>files := (files w)(path \<mapsto> [])\<rparr>))"

text \<open>\<^verbatim>\<open>Write\<close> on a file open for writing at \<open>path\<close>: appends the data.\<close>

definition Write :: "string \<Rightarrow> bytes \<Rightarrow> world \<Rightarrow> error option \<times> world" where
  "Write path data w =
     (case writeErr w path of
        Some e \<Rightarrow> (Some e, w)
      | None \<Rightarrow>
          (None, w\<lparr>files := (files w)(path \<mapsto> (case files w path of None \<Rightarrow> [] | Some old \<Rightarrow> old) @ data)\<rparr>))"

text \<open>\<^verbatim>\<open>os.Open\<close> and \<^verbatim>\<open>os.ReadFile\<close>: the content, or an error for a missing file.\<close>

definition ReadFile :: "string \<Rightarrow> world \<Rightarrow> error + bytes" where
  "ReadFile path w =
     (case files w path of
        None \<Rightarrow> Inl (''open '' @ path @ '': no such file or directory'')
      | Some content \<Rightarrow> Inr content)"

definition WriteFile :: "string \<Rightarrow> bytes \<Rightarrow> world \<Rightarrow> error option \<times> world" where
  "WriteFile path data w =
     (case Create path w of
        (Some e, w) \<Rightarrow> (Some e, w)
      | (None, w) \<Rightarrow> Write path data w)"

definition copyFile :: "string \<Rightarrow> string \<Rightarrow> world \<Rightarrow> error option \<times> world" where
  "copyFile src dst w =
     (case ReadFile src w of
        Inl err \<Rightarrow> (Some err, w)
      | Inr data \<Rightarrow> WriteFile dst data w)"

text \<open>
  \<^verbatim>\<open>pdfSurface.Finish()\<close> on the surface created on \<open>path\<close>: Cairo writes the
  document. A second \<^verbatim>\<open>Finish\<close> on the same surface (the deferred one) does nothing.
\<close>

definition Finish :: "extern \<Rightarrow> string \<Rightarrow> float64 \<Rightarrow> float64 \<Rightarrow> surface \<Rightarrow> world \<Rightarrow> world" where
  "Finish E path width height pdfSurface w =
     w\<lparr>files := (files w)(path \<mapsto> cairoPDF E width height pdfSurface)\<rparr>"

subsection \<open>The generator\<close>

definition initBackgroundPages :: "extern \<Rightarrow> PdfGenerator \<Rightarrow> bytes \<Rightarrow> error + PdfGenerator" where
  "initBackgroundPages E p pdfArr =
     (if length pdfArr > 0 then
        (case ReadContext E pdfArr of
           Inl err \<Rightarrow> Inl (''failed to read PDF: '' @ err)
         | Inr encrypted \<Rightarrow> Inr (p\<lparr>backgroundPDF := Some pdfArr, template := False\<rparr>))
      else Inr (p\<lparr>template := True\<rparr>))"

text \<open>
  The deferred calls run when the function returns, last registered first:
  \<^verbatim>\<open>Finish\<close>, then the removal of the temporary file.
\<close>

definition generateAnnotationsOnly :: "extern \<Rightarrow> PdfGenerator \<Rightarrow> Zip \<Rightarrow> world \<Rightarrow> error option \<times> world" where
  "generateAnnotationsOnly E p zp w =
     (case CreateTemp ''rmapi-annotations-'' ''.pdf'' w of
        Inl err \<Rightarrow> (Some (''failed to create temp file: '' @ err), w)
      | Inr (tmpPath, w) \<Rightarrow>
          let (firstWidth, firstHeight) = firstPageSize p;
              (err, pageCount, pdfSurface) =
                 pageLoop p (length (Pages zp)) firstWidth firstHeight (Pages zp) (0, [])
          in case err of
               Some e \<Rightarrow> (Some e, Remove tmpPath (Finish E tmpPath firstWidth firstHeight pdfSurface w))
             | None \<Rightarrow>
                 let w = Finish E tmpPath firstWidth firstHeight pdfSurface w;
                     (err, w) = copyFile tmpPath (outputFilePath p) w
                 in (err, Remove tmpPath w))"

text \<open>Lines 216-243 of \<^verbatim>\<open>generateWithBackground\<close>: step 3, the merge.\<close>

definition mergeStep ::
  "extern \<Rightarrow> PdfGenerator \<Rightarrow> string \<Rightarrow> string \<Rightarrow> world \<Rightarrow> error option \<times> world" where
  "mergeStep E p tmpBackgroundPath tmpAnnotationsPath w =
     (case Create (outputFilePath p) w of
        (Some err, w) \<Rightarrow> (Some (''failed to create output file: '' @ err), w)
      | (None, w) \<Rightarrow>
          (case ReadFile tmpBackgroundPath w of
             Inl err \<Rightarrow> (Some (''failed to open background PDF: '' @ err), w)
           | Inr bgFile \<Rightarrow>
               (case ReadFile tmpAnnotationsPath w of
                  Inl err \<Rightarrow> (Some (''failed to open annotations PDF: '' @ err), w)
                | Inr annFile \<Rightarrow>
                    let rsc = [bgFile, annFile];
                        (written, err) = MergeRaw E rsc;
                        w = w\<lparr>files := (files w)(outputFilePath p \<mapsto> written)\<rparr>
                    in case err of
                         Some e \<Rightarrow> (Some (''failed to merge PDFs: '' @ e), w)
                       | None \<Rightarrow> (None, w))))"

definition generateWithBackground :: "extern \<Rightarrow> PdfGenerator \<Rightarrow> Zip \<Rightarrow> world \<Rightarrow> error option \<times> world" where
  "generateWithBackground E p zp w =
     (case CreateTemp ''rmapi-annotations-'' ''.pdf'' w of
        Inl err \<Rightarrow> (Some (''failed to create temp annotations file: '' @ err), w)
      | Inr (tmpAnnotationsPath, w) \<Rightarrow>
          (case generateAnnotationsOnly E p zp w of
             (Some err, w) \<Rightarrow> (Some err, Remove tmpAnnotationsPath w)
           | (None, w) \<Rightarrow>
               (case CreateTemp ''rmapi-background-'' ''.pdf'' w of
                  Inl err \<Rightarrow>
                    (Some (''failed to create temp background file: '' @ err),
                     Remove tmpAnnotationsPath w)
                | Inr (tmpBackgroundPath, w) \<Rightarrow>
                    (case Write tmpBackgroundPath
                            (case backgroundPDF p of None \<Rightarrow> [] | Some b \<Rightarrow> b) w of
                       (Some err, w) \<Rightarrow>
                         (Some (''failed to write background PDF: '' @ err),
                          Remove tmpAnnotationsPath (Remove tmpBackgroundPath w))
                     | (None, w) \<Rightarrow>
                         let (err, w) = mergeStep E p tmpBackgroundPath tmpAnnotationsPath w
                         in (err, Remove tmpAnnotationsPath (Remove tmpBackgroundPath w))))))"

text \<open>Lines 84-102 of \<^verbatim>\<open>Generate\<close>: what it does once the archive is read.\<close>

definition generateZip :: "extern \<Rightarrow> PdfGenerator \<Rightarrow> Zip \<Rightarrow> world \<Rightarrow> error option \<times> world" where
  "generateZip E p zp w =
     (if FileType zp = ''epub'' then (Some ''only pdf and notebooks supported'', w)
      else
        (case initBackgroundPages E p (Payload zp) of
           Inl err \<Rightarrow> (Some err, w)
         | Inr p \<Rightarrow>
             if length (Pages zp) = 0 then (Some ''the document has no pages'', w)
             else if backgroundPDF p \<noteq> None \<and> \<not> AnnotationsOnly (options p)
                  then generateWithBackground E p zp w
                  else generateAnnotationsOnly E p zp w))"

definition Generate :: "extern \<Rightarrow> PdfGenerator \<Rightarrow> world \<Rightarrow> error option \<times> world" where
  "Generate E p w =
     (case ReadFile (zipName p) w of
        Inl err \<Rightarrow> (Some err, w)
      | Inr content \<Rightarrow>
          (case ReadZip E content of
             Inl err \<Rightarrow> (Some err, w)
           | Inr zp \<Rightarrow> generateZip E p zp w))"

subsection \<open>Notions of the specification, auxiliary notions and example inputs\<close>

text \<open>A source page is rendered when \<^verbatim>\<open>AllPages\<close> is set or it has stroke data.\<close>

definition nonSkipped :: "PdfGeneratorOptions \<Rightarrow> Page \<Rightarrow> bool" where
  "nonSkipped opts pg = (AllPages opts \<or> Data pg \<noteq> None)"

text \<open>The number of page advances issued on a surface.\<close>

definition pageAdvances :: "surface \<Rightarrow> nat" where
  "pageAdvances s = length (filter (\<lambda>c. c = ShowPage) s)"

text \<open>The last call issued on a surface is a page advance.\<close>

definition trailingAdvance :: "surface \<Rightarrow> bool" where
  "trailingAdvance s = (s \<noteq> [] \<and> last s = ShowPage)"

text \<open>The calls of one rendered page, \<open>k\<close> its 1-based output index, before the page advance.\<close>

definition pageBody :: "PdfGenerator \<Rightarrow> float64 \<Rightarrow> float64 \<Rightarrow> Page \<Rightarrow> nat \<Rightarrow> call list" where
  "pageBody p firstWidth firstHeight pg k =
     (if 1 < k then [SetPDFPageSize (Width rmPageSize) (Height rmPageSize)] else []) @
     (case Data pg of
        Some rmData \<Rightarrow>
          Save # drawLayers [] (Layers rmData) (calcScale firstWidth firstHeight) firstHeight @ [Restore]
      | None \<Rightarrow> []) @
     (if AddPageNumbers (options p) then drawPageNumber [] k firstWidth firstHeight else [])"

text \<open>The names \<^verbatim>\<open>os.CreateTemp\<close> forms from the two patterns of the generator.\<close>

definition tmpAnnotationsName :: "string \<Rightarrow> string" where
  "tmpAnnotationsName r = ''/tmp/'' @ ''rmapi-annotations-'' @ r @ ''.pdf''"

definition tmpBackgroundName :: "string \<Rightarrow> string" where
  "tmpBackgroundName r = ''/tmp/'' @ ''rmapi-background-'' @ r @ ''.pdf''"

text \<open>The calls that put a mark on the page: a stroked path and a text.\<close>

fun isDrawn :: "call \<Rightarrow> bool" where
  "isDrawn Stroke = True"
| "isDrawn (ShowText t) = True"
| "isDrawn c = False"

definition drawnElements :: "surface \<Rightarrow> nat" where
  "drawnElements s = length (filter isDrawn s)"

text \<open>Example inputs: lines, pages, documents, generators.\<close>

definition penLine :: Line where
  "penLine = \<lparr>BrushType = OtherBrush 17, BrushColor = Black, BrushSize = 2,
               Points = [\<lparr>X = 100, Y = 200\<rparr>, \<lparr>X = 300, Y = 400\<rparr>]\<rparr>"

definition eraserLine :: Line where
  "eraserLine = penLine\<lparr>BrushType := Eraser\<rparr>"

definition highlighterLine :: Line where
  "highlighterLine = penLine\<lparr>BrushType := HighlighterV5\<rparr>"

definition contentPage :: Page where
  "contentPage = \<lparr>Data = Some \<lparr>Layers = [\<lparr>Lines = [penLine]\<rparr>]\<rparr>\<rparr>"

definition blankPage :: Page where
  "blankPage = \<lparr>Data = None\<rparr>"

definition doc3 :: Zip where
  "doc3 = \<lparr>Pages = [blankPage, contentPage, blankPage], Payload = [], FileType = ''notebook''\<rparr>"

definition gen :: "bool \<Rightarrow> PdfGenerator" where
  "gen allPages = CreatePdfGenerator ''doc.zip'' ''out.pdf''
     \<lparr>AddPageNumbers = False, AllPages = allPages, AnnotationsOnly = False\<rparr>"



text \<open>Example inputs: a background payload, a document carrying it, an empty file system, and collaborators whose merge succeeds (writing its inputs, each preceded by its length) or fails after writing one byte.\<close>

definition pdfBytes :: bytes where
  "pdfBytes = [0x25, 0x50, 0x44, 0x46]"

definition doc1 :: Zip where
  "doc1 = \<lparr>Pages = [contentPage], Payload = pdfBytes, FileType = ''pdf''\<rparr>"

definition world0 :: world where
  "world0 = \<lparr>files = Map.empty, random = [''1'', ''2'', ''3''],
             createErr = Map.empty, writeErr = Map.empty\<rparr>"

definition mergeOK :: extern where
  "mergeOK =
     \<lparr>cairoPDF = (\<lambda>width height calls. [0x43, of_nat (length calls)]),
      ReadContext = (\<lambda>b. Inr False),
      MergeRaw = (\<lambda>rsc. (concat (map (\<lambda>b. of_nat (length b) # b) rsc), None)),
      ReadZip = (\<lambda>b. Inr doc1)\<rparr>"

definition mergeFails :: extern where
  "mergeFails = mergeOK\<lparr>MergeRaw := (\<lambda>rsc. ([0x25], Some ''EOF''))\<rparr>"



section \<open>Properties\<close>

subsection \<open>Paths and brushes\<close>

lemma drawPath_append:
  "drawPath surface i pts scale pageHeight = surface @ drawPath [] i pts scale pageHeight"
proof (induction pts arbitrary: surface i)
  case Nil
  show ?case by simp
next
  case (Cons pt pts)
  define c where "c = (if i = 0 then MoveTo (X pt * scale) (pageHeight - Y pt * scale)
                       else LineTo (X pt * scale) (pageHeight - Y pt * scale))"
  have step: "drawPath s i (pt # pts) scale pageHeight = drawPath (s @ [c]) (i + 1) pts scale pageHeight" for s
    by (simp add: normalized_def Let_def c_def)
  have "drawPath surface i (pt # pts) scale pageHeight
          = (surface @ [c]) @ drawPath [] (i + 1) pts scale pageHeight"
    unfolding step by (rule Cons.IH)
  moreover have "drawPath [] i (pt # pts) scale pageHeight
          = ([] @ [c]) @ drawPath [] (i + 1) pts scale pageHeight"
    unfolding step by (rule Cons.IH)
  ultimately show ?case by simp
qed

lemma drawPath_later:
  "0 < i \<Longrightarrow> drawPath [] i pts scale pageHeight =
     map (\<lambda>q. LineTo (X q * scale) (pageHeight - Y q * scale)) pts"
proof (induction pts arbitrary: i)
  case Nil
  show ?case by simp
next
  case (Cons pt pts)
  have "drawPath [] i (pt # pts) scale pageHeight =
          drawPath [LineTo (X pt * scale) (pageHeight - Y pt * scale)] (i + 1) pts scale pageHeight"
    using Cons.prems by (simp add: normalized_def Let_def)
  also have "\<dots> = [LineTo (X pt * scale) (pageHeight - Y pt * scale)] @ drawPath [] (i + 1) pts scale pageHeight"
    by (rule drawPath_append)
  finally show ?case using Cons.IH [of "i + 1"] by simp
qed

lemma drawPath_first:
  "drawPath surface 0 (pt # pts) scale pageHeight =
     surface @ MoveTo (X pt * scale) (pageHeight - Y pt * scale)
       # map (\<lambda>q. LineTo (X q * scale) (pageHeight - Y q * scale)) pts"
proof -
  have "drawPath surface 0 (pt # pts) scale pageHeight =
          drawPath (surface @ [MoveTo (X pt * scale) (pageHeight - Y pt * scale)]) 1 pts scale pageHeight"
    by (simp add: normalized_def Let_def)
  also have "\<dots> = (surface @ [MoveTo (X pt * scale) (pageHeight - Y pt * scale)]) @ drawPath [] 1 pts scale pageHeight"
    by (rule drawPath_append)
  finally show ?thesis by (simp add: drawPath_later)
qed

lemma calcScale_formula:
  "pageWidth \<noteq> 0 \<Longrightarrow> calcScale pageWidth pageHeight =
     (if pageHeight / pageWidth < 1.33 then pageWidth / 1404 else pageHeight / 1872)"
  by (simp add: calcScale_def DeviceWidth_def DeviceHeight_def Let_def)

lemma strokeWidth_max: "strokeWidth b = max 0.5 (b * 6.0 - 10.8)"
  by (simp add: strokeWidth_def Let_def max_def)

lemma drawHighlighter_append:
  "drawHighlighter surface line scale pageHeight = surface @ drawHighlighter [] line scale pageHeight"
  by (simp add: drawHighlighter_def Let_def split: prod.splits)

lemma drawStroke_calls:
  assumes "Points line = pt # pts"
  shows "drawStroke surface line scale pageHeight =
           surface @
           [case strokeColor (BrushColor line) of (r, g, b) \<Rightarrow> SetSourceRGB r g b,
            SetLineWidth (strokeWidth (BrushSize line)),
            SetLineCap LINE_CAP_ROUND, SetLineJoin LINE_JOIN_ROUND,
            MoveTo (X pt * scale) (pageHeight - Y pt * scale)] @
           map (\<lambda>q. LineTo (X q * scale) (pageHeight - Y q * scale)) pts @ [Stroke]"
  using assms by (simp add: drawStroke_def Let_def drawPath_first del: drawPath.simps split: prod.splits)

lemma drawStroke_append:
  "drawStroke surface line scale pageHeight = surface @ drawStroke [] line scale pageHeight"
proof (cases "Points line")
  case Nil
  then show ?thesis by (simp add: drawStroke_def)
next
  case (Cons pt pts)
  show ?thesis
    by (simp add: drawStroke_calls [OF Cons])
qed

lemma drawLine_append:
  "drawLine surface line scale pageHeight = surface @ drawLine [] line scale pageHeight"
  using drawHighlighter_append [of surface line scale pageHeight]
        drawStroke_append [of surface line scale pageHeight]
  by (simp add: drawLine_def)

lemma drawLines_append:
  "drawLines surface ls scale pageHeight = surface @ drawLines [] ls scale pageHeight"
proof (induction ls arbitrary: surface)
  case Nil
  show ?case by simp
next
  case (Cons l ls)
  have "drawLines surface (l # ls) scale pageHeight
          = drawLine surface l scale pageHeight @ drawLines [] ls scale pageHeight"
    by (simp add: Cons.IH [of "drawLine surface l scale pageHeight"])
  also have "\<dots> = surface @ drawLine [] l scale pageHeight @ drawLines [] ls scale pageHeight"
    using drawLine_append [of surface l scale pageHeight] by simp
  also have "drawLine [] l scale pageHeight @ drawLines [] ls scale pageHeight
          = drawLines [] (l # ls) scale pageHeight"
    by (simp add: Cons.IH [of "drawLine [] l scale pageHeight"])
  finally show ?case .
qed

lemma drawLayers_append:
  "drawLayers surface ys scale pageHeight = surface @ drawLayers [] ys scale pageHeight"
proof (induction ys arbitrary: surface)
  case Nil
  show ?case by simp
next
  case (Cons l ls)
  have "drawLayers surface (l # ls) scale pageHeight
          = drawLines surface (Lines l) scale pageHeight @ drawLayers [] ls scale pageHeight"
    by (simp add: Cons.IH [of "drawLines surface (Lines l) scale pageHeight"])
  also have "\<dots> = surface @ drawLines [] (Lines l) scale pageHeight @ drawLayers [] ls scale pageHeight"
    using drawLines_append [of surface "Lines l" scale pageHeight] by simp
  also have "drawLines [] (Lines l) scale pageHeight @ drawLayers [] ls scale pageHeight
          = drawLayers [] (l # ls) scale pageHeight"
    by (simp add: Cons.IH [of "drawLines [] (Lines l) scale pageHeight"])
  finally show ?case .
qed

lemma drawLine_no_ShowPage: "ShowPage \<notin> set (drawLine [] line scale pageHeight)"
proof (cases "Points line")
  case Nil
  then show ?thesis by (simp add: drawLine_def)
next
  case (Cons pt pts)
  show ?thesis
    by (auto simp add: drawLine_def drawStroke_calls [OF Cons] drawHighlighter_def Let_def
             split: prod.splits)
qed

lemma drawLines_no_ShowPage: "ShowPage \<notin> set (drawLines [] ls scale pageHeight)"
proof (induction ls)
  case Nil
  show ?case by simp
next
  case (Cons l ls)
  have "drawLines [] (l # ls) scale pageHeight
          = drawLine [] l scale pageHeight @ drawLines [] ls scale pageHeight"
    using drawLines_append [of "drawLine [] l scale pageHeight" ls scale pageHeight] by simp
  then show ?case using Cons.IH drawLine_no_ShowPage [of l scale pageHeight] by simp
qed

lemma drawLayers_no_ShowPage: "ShowPage \<notin> set (drawLayers [] ys scale pageHeight)"
proof (induction ys)
  case Nil
  show ?case by simp
next
  case (Cons l ls)
  have "drawLayers [] (l # ls) scale pageHeight
          = drawLines [] (Lines l) scale pageHeight @ drawLayers [] ls scale pageHeight"
    using drawLayers_append [of "drawLines [] (Lines l) scale pageHeight" ls scale pageHeight] by simp
  then show ?case using Cons.IH drawLines_no_ShowPage [of "Lines l" scale pageHeight] by simp
qed

lemma drawAnnotations_calls:
  "drawAnnotations surface rmData scale pageHeight =
     (surface @ Save # drawLayers [] (Layers rmData) scale pageHeight @ [Restore], None)"
  using drawLayers_append [of "surface @ [Save]" "Layers rmData" scale pageHeight]
  by (simp add: drawAnnotations_def Let_def)

text \<open>
  Claim C6. A highlighter line with at least 2 points is drawn as exactly one band:
  colour (1, 1, 0) at alpha 0.5, thickness \<open>scale * 30\<close>, butt cap, from the mapped
  X of the first point to the mapped X of the last point at the constant
  \<open>y = pageHeight - (Y first * scale + (scale * 30) / 2)\<close>, stroked once. A
  highlighter line with fewer than 2 points issues no call.
\<close>

theorem highlighter_band:
  assumes "BrushType line = HighlighterV5"
  shows "drawLine surface line scale pageHeight =
           (if length (Points line) < 2 then surface
            else surface @
              [SetSourceRGBA 1 1 0 0.5, SetLineWidth (scale * 30), SetLineCap LINE_CAP_BUTT,
               MoveTo (X (hd (Points line)) * scale)
                      (pageHeight - (Y (hd (Points line)) * scale + (scale * 30) / 2)),
               LineTo (X (last (Points line)) * scale)
                      (pageHeight - (Y (hd (Points line)) * scale + (scale * 30) / 2)),
               Stroke])"
proof (cases "length (Points line) < 2")
  case True
  then show ?thesis using assms by (simp add: drawLine_def drawHighlighter_def)
next
  case False
  then have ne: "Points line \<noteq> []" by auto
  have h: "Points line ! 0 = hd (Points line)"
    using ne by (simp add: hd_conv_nth)
  have l: "Points line ! (length (Points line) - Suc 0) = last (Points line)"
    using ne by (simp add: last_conv_nth)
  show ?thesis using assms False ne
    by (simp add: drawLine_def drawHighlighter_def Let_def normalized_def h l)
qed

text \<open>
  Claim C7. A line that is neither an eraser nor a highlighter (and has a point, so that
  it is drawn at all) sets the colour (0,0,0) for Black, (1,1,1) for White,
  (0.5,0.5,0.5) for Grey and (0,0,0) for any other colour value, and the width
  \<open>BrushSize * 6.0 - 10.8\<close> bounded below by 0.5; caps and joins are round and the
  path is stroked once.
\<close>

theorem stroke_color_width:
  assumes "BrushType line \<noteq> Eraser" and "BrushType line \<noteq> HighlighterV5"
    and "Points line \<noteq> []"
  shows "drawLine surface line scale pageHeight =
           surface @
           [case BrushColor line of
              Black \<Rightarrow> SetSourceRGB 0 0 0
            | White \<Rightarrow> SetSourceRGB 1 1 1
            | Grey \<Rightarrow> SetSourceRGB 0.5 0.5 0.5
            | OtherColor n \<Rightarrow> SetSourceRGB 0 0 0,
            SetLineWidth (max 0.5 (BrushSize line * 6.0 - 10.8)),
            SetLineCap LINE_CAP_ROUND, SetLineJoin LINE_JOIN_ROUND] @
           drawPath [] 0 (Points line) scale pageHeight @ [Stroke]"
proof -
  obtain pt pts where P: "Points line = pt # pts"
    using assms(3) by (cases "Points line") auto
  show ?thesis
    using assms(1,2)
    by (simp add: drawLine_def drawStroke_calls [OF P] P drawPath_first strokeWidth_max
             del: drawPath.simps split: BrushColor.splits)
qed

subsection \<open>The page loop\<close>

lemma pageStep_eq:
  "pageStep p n fw fh pg (pc, s) =
     (if \<not> nonSkipped (options p) pg then (None, pc, s)
      else (None, pc + 1,
            s @ pageBody p fw fh pg (pc + 1) @
              (if pc + 1 < n \<or> AllPages (options p) then [ShowPage] else [])))"
  by (simp add: pageStep_def nonSkipped_def pageBody_def drawAnnotations_calls drawPageNumber_def
        Let_def split: option.splits)

lemma pageBody_no_ShowPage: "ShowPage \<notin> set (pageBody p fw fh pg k)"
  using drawLayers_no_ShowPage
  by (simp add: pageBody_def drawPageNumber_def split: option.splits)

lemma pageBody_last:
  "Data pg \<noteq> None \<Longrightarrow> pageBody p fw fh pg k \<noteq> [] \<and> last (pageBody p fw fh pg k) = Restore"
  by (auto simp add: pageBody_def drawPageNumber_def split: option.splits)

lemma pageAdvances_append: "pageAdvances (s @ t) = pageAdvances s + pageAdvances t"
  by (simp add: pageAdvances_def)

lemma pageAdvances_body: "pageAdvances (pageBody p fw fh pg k) = 0"
  using pageBody_no_ShowPage [of p fw fh pg k]
  by (auto simp add: pageAdvances_def filter_empty_conv)

lemma pageLoop_no_error:
  "fst (pageLoop p n fw fh pgs (pc, s)) = None"
proof (induction pgs arbitrary: pc s)
  case Nil
  show ?case by simp
next
  case (Cons pg pgs)
  show ?case by (simp add: pageStep_eq Cons.IH)
qed

lemma pageLoop_count:
  "fst (snd (pageLoop p n fw fh pgs (pc, s))) = pc + length (filter (nonSkipped (options p)) pgs)"
proof (induction pgs arbitrary: pc s)
  case Nil
  show ?case by simp
next
  case (Cons pg pgs)
  show ?case by (simp add: pageStep_eq Cons.IH)
qed

lemma pageLoop_advances_all:
  "AllPages (options p) \<Longrightarrow>
   pageAdvances (snd (snd (pageLoop p n fw fh pgs (pc, s)))) = pageAdvances s + length pgs"
proof (induction pgs arbitrary: pc s)
  case Nil
  show ?case by simp
next
  case (Cons pg pgs)
  have "pageAdvances [ShowPage] = 1" by (simp add: pageAdvances_def)
  then show ?case using Cons.prems
    by (simp add: pageStep_eq Cons.IH nonSkipped_def pageAdvances_append pageAdvances_body)
qed

lemma pageLoop_advances_content:
  "\<not> AllPages (options p) \<Longrightarrow>
   pageAdvances (snd (snd (pageLoop p n fw fh pgs (pc, s)))) + min pc (n - 1)
     = pageAdvances s + min (pc + length (filter (nonSkipped (options p)) pgs)) (n - 1)"
proof (induction pgs arbitrary: pc s)
  case Nil
  show ?case by simp
next
  case (Cons pg pgs)
  have one: "pageAdvances [ShowPage] = 1" "pageAdvances [] = 0" by (simp_all add: pageAdvances_def)
  show ?case
  proof (cases "nonSkipped (options p) pg")
    case False
    then show ?thesis using Cons.prems Cons.IH [of pc s] by (simp add: pageStep_eq)
  next
    case True
    let ?s1 = "s @ pageBody p fw fh pg (pc + 1) @ (if pc + 1 < n then [ShowPage] else [])"
    have step: "pageLoop p n fw fh (pg # pgs) (pc, s) = pageLoop p n fw fh pgs (pc + 1, ?s1)"
      using True Cons.prems by (simp add: pageStep_eq)
    have adv: "pageAdvances ?s1 + min pc (n - 1) = pageAdvances s + min (pc + 1) (n - 1)"
      using one by (auto simp add: pageAdvances_append pageAdvances_body)
    have "pageAdvances (snd (snd (pageLoop p n fw fh pgs (pc + 1, ?s1)))) + min (pc + 1) (n - 1)
            = pageAdvances ?s1 + min (pc + 1 + length (filter (nonSkipped (options p)) pgs)) (n - 1)"
      using Cons.IH [OF Cons.prems, of "pc + 1" ?s1] .
    then show ?thesis using adv True unfolding step by simp
  qed
qed

lemma pageLoop_unchanged:
  "length (filter (nonSkipped (options p)) pgs) = 0 \<Longrightarrow>
   snd (snd (pageLoop p n fw fh pgs (pc, s))) = s"
proof (induction pgs arbitrary: pc s)
  case Nil
  show ?case by simp
next
  case (Cons pg pgs)
  then show ?case by (simp add: pageStep_eq split: if_splits)
qed

lemma trailingAdvance_step:
  "nonSkipped (options p) pg \<Longrightarrow>
   trailingAdvance (s @ pageBody p fw fh pg k @ (if k < n \<or> AllPages (options p) then [ShowPage] else []))
     = (k < n \<or> AllPages (options p))"
  using pageBody_last [of pg p fw fh k]
  by (auto simp add: trailingAdvance_def nonSkipped_def)

lemma pageLoop_trailing:
  "0 < length (filter (nonSkipped (options p)) pgs) \<or> (0 < pc \<and> trailingAdvance s = (pc < n \<or> AllPages (options p))) \<Longrightarrow>
   trailingAdvance (snd (snd (pageLoop p n fw fh pgs (pc, s))))
     = (pc + length (filter (nonSkipped (options p)) pgs) < n \<or> AllPages (options p))"
proof (induction pgs arbitrary: pc s)
  case Nil
  then show ?case by simp
next
  case (Cons pg pgs)
  show ?case
  proof (cases "nonSkipped (options p) pg")
    case False
    then show ?thesis using Cons.prems Cons.IH [of pc s] by (simp add: pageStep_eq)
  next
    case True
    let ?s1 = "s @ pageBody p fw fh pg (pc + 1) @ (if pc + 1 < n \<or> AllPages (options p) then [ShowPage] else [])"
    have step: "pageLoop p n fw fh (pg # pgs) (pc, s) = pageLoop p n fw fh pgs (pc + 1, ?s1)"
      using True by (simp add: pageStep_eq)
    have "trailingAdvance ?s1 = (pc + 1 < n \<or> AllPages (options p))"
      by (rule trailingAdvance_step [OF True])
    then have "trailingAdvance (snd (snd (pageLoop p n fw fh pgs (pc + 1, ?s1))))
                 = (pc + 1 + length (filter (nonSkipped (options p)) pgs) < n \<or> AllPages (options p))"
      using Cons.IH [of "pc + 1" ?s1] by simp
    then show ?thesis using True unfolding step by simp
  qed
qed

subsection \<open>Runs of the generator\<close>

lemma pageLoop_result:
  "pageLoop p n fw fh pgs st = (None, fst (snd (pageLoop p n fw fh pgs st)), snd (snd (pageLoop p n fw fh pgs st)))"
  using pageLoop_no_error [of p n fw fh pgs "fst st" "snd st"]
  by (metis prod.collapse)

lemma firstPageSize_fixed: "firstPageSize p = (445, 594)"
  by (simp add: firstPageSize_def rmPageSize_def)

lemma CreateTemp_fresh:
  assumes "random w = r # rs" and "files w (''/tmp/'' @ prefix @ r @ suffix) = None"
  shows "CreateTemp prefix suffix w =
           Inr (''/tmp/'' @ prefix @ r @ suffix,
                w\<lparr>files := (files w)(''/tmp/'' @ prefix @ r @ suffix \<mapsto> []), random := rs\<rparr>)"
  using assms by (simp add: CreateTemp_def Let_def)

lemma generateAnnotationsOnly_run:
  assumes R: "random w = r # rs"
    and F: "files w (tmpAnnotationsName r) = None"
    and O: "outputFilePath p \<noteq> tmpAnnotationsName r"
    and C: "createErr w (outputFilePath p) = None"
    and W: "writeErr w (outputFilePath p) = None"
  shows "generateAnnotationsOnly E p zp w =
           (None, w\<lparr>files := (files w)(outputFilePath p \<mapsto>
                         cairoPDF E 445 594 (snd (snd (renderPages p zp)))),
                     random := rs\<rparr>)"
proof -
  let ?tmp = "tmpAnnotationsName r"
  let ?calls = "snd (snd (renderPages p zp))"
  have ct: "CreateTemp ''rmapi-annotations-'' ''.pdf'' w =
              Inr (?tmp, w\<lparr>files := (files w)(?tmp \<mapsto> []), random := rs\<rparr>)"
    using CreateTemp_fresh [OF R, of "''rmapi-annotations-''" "''.pdf''"] F
    by (simp add: tmpAnnotationsName_def)
  have loop: "pageLoop p (length (Pages zp)) 445 594 (Pages zp) (0, []) = (None, fst (snd (renderPages p zp)), ?calls)"
    using pageLoop_result [of p "length (Pages zp)" 445 594 "Pages zp" "(0, [])"]
    by (simp add: renderPages_def firstPageSize_fixed)
  have maps: "(files w)(outputFilePath p \<mapsto> c, ?tmp := None) = (files w)(outputFilePath p \<mapsto> c)" for c
    using F O by (auto simp add: fun_eq_iff)
  show ?thesis
    using O C W
    by (simp add: generateAnnotationsOnly_def ct firstPageSize_fixed loop Finish_def copyFile_def
          ReadFile_def WriteFile_def Create_def Write_def Remove_def maps case_prod_beta)
qed

lemma tmp_names_distinct:
  "tmpAnnotationsName r \<noteq> tmpBackgroundName r'"
  "(tmpAnnotationsName r = tmpAnnotationsName r') = (r = r')"
  by (simp_all add: tmpAnnotationsName_def tmpBackgroundName_def)

lemma generateWithBackground_run:
  assumes R: "random w = r1 # r2 # r3 # rs"
    and F1: "files w (tmpAnnotationsName r1) = None"
    and F2: "files w (tmpAnnotationsName r2) = None"
    and F3: "files w (tmpBackgroundName r3) = None"
    and D: "r1 \<noteq> r2"
    and O1: "outputFilePath p \<noteq> tmpAnnotationsName r1"
    and O2: "outputFilePath p \<noteq> tmpAnnotationsName r2"
    and O3: "outputFilePath p \<noteq> tmpBackgroundName r3"
    and C: "createErr w (outputFilePath p) = None"
    and W: "writeErr w (outputFilePath p) = None"
    and WB: "writeErr w (tmpBackgroundName r3) = None"
    and M: "MergeRaw E [case backgroundPDF p of None \<Rightarrow> [] | Some b \<Rightarrow> b, []] = (written, merr)"
  shows "generateWithBackground E p zp w =
           (case merr of None \<Rightarrow> None | Some e \<Rightarrow> Some (''failed to merge PDFs: '' @ e),
            w\<lparr>files := (files w)(outputFilePath p \<mapsto> written), random := rs\<rparr>)"
proof -
  let ?a = "tmpAnnotationsName r1"
  let ?b = "tmpBackgroundName r3"
  let ?out = "outputFilePath p"
  let ?bg = "case backgroundPDF p of None \<Rightarrow> [] | Some b \<Rightarrow> b"
  let ?pdf = "cairoPDF E 445 594 (snd (snd (renderPages p zp)))"
  define w1 where "w1 = w\<lparr>files := (files w)(?a \<mapsto> []), random := r2 # r3 # rs\<rparr>"
  define w2 where "w2 = w1\<lparr>files := (files w1)(?out \<mapsto> ?pdf), random := r3 # rs\<rparr>"
  define w3 where "w3 = w2\<lparr>files := (files w2)(?b \<mapsto> []), random := rs\<rparr>"
  define w4 where "w4 = w3\<lparr>files := (files w3)(?b \<mapsto> ?bg)\<rparr>"
  have s1: "CreateTemp ''rmapi-annotations-'' ''.pdf'' w = Inr (?a, w1)"
    using CreateTemp_fresh [OF R, of "''rmapi-annotations-''" "''.pdf''"] F1
    by (simp add: tmpAnnotationsName_def w1_def)
  have s2: "generateAnnotationsOnly E p zp w1 = (None, w2)"
    unfolding w2_def
  proof (rule generateAnnotationsOnly_run)
    show "random w1 = r2 # r3 # rs" by (simp add: w1_def)
    show "files w1 (tmpAnnotationsName r2) = None"
      using F2 D by (simp add: w1_def tmp_names_distinct)
    show "outputFilePath p \<noteq> tmpAnnotationsName r2" by (rule O2)
    show "createErr w1 (outputFilePath p) = None" using C by (simp add: w1_def)
    show "writeErr w1 (outputFilePath p) = None" using W by (simp add: w1_def)
  qed
  have f2b: "files w2 ?b = None"
    using F3 O3 tmp_names_distinct(1) [of r1 r3] by (auto simp add: w2_def w1_def)
  have s3: "CreateTemp ''rmapi-background-'' ''.pdf'' w2 = Inr (?b, w3)"
    using CreateTemp_fresh [of w2 r3 rs "''rmapi-background-''" "''.pdf''"] f2b
    by (simp add: tmpBackgroundName_def w3_def w2_def)
  have s4: "Write ?b ?bg w3 = (None, w4)"
    using WB by (simp add: Write_def w4_def w3_def w2_def w1_def)
  have ce: "createErr w4 ?out = None"
    using C by (simp add: w4_def w3_def w2_def w1_def)
  have ab: "?a \<noteq> ?b" by (rule tmp_names_distinct(1))
  have s5: "mergeStep E p ?b ?a w4 =
              (case merr of None \<Rightarrow> None | Some e \<Rightarrow> Some (''failed to merge PDFs: '' @ e),
               w4\<lparr>files := (files w4)(?out \<mapsto> written)\<rparr>)"
    using O1 O3 ab M ce
    by (simp add: mergeStep_def Create_def ReadFile_def w4_def w3_def w2_def w1_def
          split: option.splits)
  have fin: "Remove ?a (Remove ?b (w4\<lparr>files := (files w4)(?out \<mapsto> written)\<rparr>))
               = w\<lparr>files := (files w)(?out \<mapsto> written), random := rs\<rparr>"
    using O1 O3 ab F1 F3
    by (auto simp add: Remove_def w4_def w3_def w2_def w1_def fun_eq_iff)
  show ?thesis
    by (simp add: generateWithBackground_def s1 s2 s3 s4 s5 fin)
qed

subsection \<open>Erasers and the scale\<close>

lemma drawLine_skip:
  "BrushType line = Eraser \<or> length (Points line) < 1 \<Longrightarrow>
   drawLine surface line scale pageHeight = surface"
  by (auto simp add: drawLine_def)

lemma drawLines_erasers:
  "\<forall>line \<in> set ls. BrushType line = Eraser \<Longrightarrow> drawLines surface ls scale pageHeight = surface"
  by (induction ls arbitrary: surface) (simp_all add: drawLine_skip)

lemma drawLayers_erasers:
  "\<forall>layer \<in> set ys. \<forall>line \<in> set (Lines layer). BrushType line = Eraser \<Longrightarrow>
   drawLayers surface ys scale pageHeight = surface"
  by (induction ys arbitrary: surface) (simp_all add: drawLines_erasers)

lemma drawnElements_append: "drawnElements (s @ t) = drawnElements s + drawnElements t"
  by (simp add: drawnElements_def)

text \<open>
  Claim C9. A line whose brush is the eraser, or that has fewer than 1 point, issues no
  call at all: the surface is as before. A page whose lines are all eraser lines issues
  only the balanced pair \<^verbatim>\<open>Save\<close>, \<^verbatim>\<open>Restore\<close> of \<^verbatim>\<open>drawAnnotations\<close>, so
  that the number of drawn elements is unchanged, and when blank pages are emitted
  (\<^verbatim>\<open>AllPages\<close>) it has as many drawn elements as a page without stroke data.
\<close>

theorem eraser_draws_nothing:
  "(BrushType line = Eraser \<or> length (Points line) < 1 \<longrightarrow>
      drawLine surface line scale pageHeight = surface) \<and>
   ((\<forall>layer \<in> set (Layers rmData). \<forall>l \<in> set (Lines layer). BrushType l = Eraser) \<longrightarrow>
      drawAnnotations surface rmData scale pageHeight = (surface @ [Save, Restore], None) \<and>
      drawnElements (fst (drawAnnotations surface rmData scale pageHeight)) = drawnElements surface \<and>
      (AllPages (options p) \<longrightarrow>
         drawnElements (snd (snd (pageStep p n fw fh \<lparr>Data = Some rmData\<rparr> (pc, surface))))
           = drawnElements (snd (snd (pageStep p n fw fh \<lparr>Data = None\<rparr> (pc, surface))))))"
proof (intro conjI impI)
  assume "BrushType line = Eraser \<or> length (Points line) < 1"
  then show "drawLine surface line scale pageHeight = surface" by (rule drawLine_skip)
next
  assume E: "\<forall>layer \<in> set (Layers rmData). \<forall>l \<in> set (Lines layer). BrushType l = Eraser"
  show A: "drawAnnotations surface rmData scale pageHeight = (surface @ [Save, Restore], None)"
    by (simp add: drawAnnotations_def Let_def drawLayers_erasers [OF E])
  show "drawnElements (fst (drawAnnotations surface rmData scale pageHeight)) = drawnElements surface"
    by (simp add: A drawnElements_def)
next
  assume E: "\<forall>layer \<in> set (Layers rmData). \<forall>l \<in> set (Lines layer). BrushType l = Eraser"
    and "AllPages (options p)"
  then show "drawnElements (snd (snd (pageStep p n fw fh \<lparr>Data = Some rmData\<rparr> (pc, surface))))
           = drawnElements (snd (snd (pageStep p n fw fh \<lparr>Data = None\<rparr> (pc, surface))))"
    by (simp add: pageStep_eq nonSkipped_def pageBody_def drawLayers_erasers [OF E]
          drawnElements_append) (simp add: drawnElements_def)
qed

text \<open>
  Claim C9 at a concrete eraser line and a page of two eraser lines.
\<close>

theorem eraser_draws_nothing_witness:
  "drawLine [Save] eraserLine 2 594 = [Save] \<and>
   drawAnnotations [] \<lparr>Layers = [\<lparr>Lines = [eraserLine, eraserLine]\<rparr>]\<rparr> 2 594 = ([Save, Restore], None)"
  using eraser_draws_nothing [of eraserLine "[Save]" 2 594 "\<lparr>Layers = [\<lparr>Lines = [eraserLine, eraserLine]\<rparr>]\<rparr>"
          "gen True" 1 445 594 0]
        eraser_draws_nothing [of eraserLine "[]" 2 594 "\<lparr>Layers = [\<lparr>Lines = [eraserLine, eraserLine]\<rparr>]\<rparr>"
          "gen True" 1 445 594 0]
  by (simp add: eraserLine_def penLine_def)

text \<open>
  Claim C10. The dimensions of the first page are 445 by 594 whether or not the
  generator works from a template, the scale computed from them is \<open>594 / 1872\<close>,
  and every page with stroke data, whatever the page counter and whether or not the
  resize call was issued for it, is drawn with that scale and the page height 594.
\<close>

theorem uniform_scale:
  "firstPageSize p = (445, 594) \<and>
   calcScale (fst (firstPageSize p)) (snd (firstPageSize p)) = 594 / 1872 \<and>
   (Data pg = Some rmData \<longrightarrow>
      pageStep p n (fst (firstPageSize p)) (snd (firstPageSize p)) pg (pageCount, surface) =
        (let s1 = (if 0 < pageCount then surface @ [SetPDFPageSize 445 594] else surface);
             s2 = fst (drawAnnotations s1 rmData (594 / 1872) 594);
             s3 = (if AddPageNumbers (options p) then drawPageNumber s2 (pageCount + 1) 445 594 else s2);
             s4 = (if pageCount + 1 < n \<or> AllPages (options p) then s3 @ [ShowPage] else s3)
         in (None, pageCount + 1, s4)))"
proof (intro conjI impI)
  show "firstPageSize p = (445, 594)" by (rule firstPageSize_fixed)
  show sc: "calcScale (fst (firstPageSize p)) (snd (firstPageSize p)) = 594 / 1872"
    by (simp add: firstPageSize_fixed calcScale_def DeviceHeight_def Let_def)
  assume D: "Data pg = Some rmData"
  have sc': "calcScale 445 594 = 594 / 1872"
    using sc by (simp add: firstPageSize_fixed)
  show "pageStep p n (fst (firstPageSize p)) (snd (firstPageSize p)) pg (pageCount, surface) =
        (let s1 = (if 0 < pageCount then surface @ [SetPDFPageSize 445 594] else surface);
             s2 = fst (drawAnnotations s1 rmData (594 / 1872) 594);
             s3 = (if AddPageNumbers (options p) then drawPageNumber s2 (pageCount + 1) 445 594 else s2);
             s4 = (if pageCount + 1 < n \<or> AllPages (options p) then s3 @ [ShowPage] else s3)
         in (None, pageCount + 1, s4))"
    using D
    by (simp add: pageStep_def firstPageSize_fixed sc' drawAnnotations_def rmPageSize_def Let_def)
qed

text \<open>
  Claim C10 at the second rendered page of a concrete document.
\<close>

theorem uniform_scale_witness:
  "Data contentPage = Some \<lparr>Layers = [\<lparr>Lines = [penLine]\<rparr>]\<rparr> \<and>
   fst (snd (pageStep (gen True) 3 (fst (firstPageSize (gen True))) (snd (firstPageSize (gen True)))
              contentPage (1, []))) = 2 \<and>
   firstPageSize (gen True) = (445, 594)"
  using uniform_scale [of "gen True" contentPage "\<lparr>Layers = [\<lparr>Lines = [penLine]\<rparr>]\<rparr>" 3 1 "[]"]
  by (auto simp add: contentPage_def Let_def)

subsection \<open>Geometry, brushes and page sequencing\<close>

text \<open>
  Claim C5. A device-space point \<open>q\<close> is mapped to \<open>x = X q * scale\<close> and
  \<open>y = pageHeight - Y q * scale\<close>: \<^verbatim>\<open>normalized\<close> scales both coordinates, and
  the path of a stroke moves to the mapped first point and draws a segment to every
  further mapped point. The scale of a page of non-zero width is
  \<open>pageWidth / 1404\<close> when \<open>pageHeight / pageWidth < 1.33\<close> and
  \<open>pageHeight / 1872\<close> otherwise.
\<close>

theorem geometry_mapping:
  assumes "pageWidth \<noteq> 0"
  shows "normalized point scale = (X point * scale, Y point * scale) \<and>
         drawPath surface 0 (pt # pts) scale pageHeight =
           surface @ MoveTo (X pt * scale) (pageHeight - Y pt * scale)
             # map (\<lambda>q. LineTo (X q * scale) (pageHeight - Y q * scale)) pts \<and>
         calcScale pageWidth pageHeight =
           (if pageHeight / pageWidth < 1.33 then pageWidth / 1404 else pageHeight / 1872)"
  using assms
  by (simp add: normalized_def drawPath_first calcScale_formula del: drawPath.simps)

text \<open>
  Claim C5 at a concrete input: two points, scale 2, page height 100, and the scale of
  the fixed page size 445 by 594.
\<close>

theorem geometry_mapping_witness:
  "(445::real) \<noteq> 0 \<and>
   drawPath [] 0 [\<lparr>X = 10, Y = 20\<rparr>, \<lparr>X = 30, Y = 40\<rparr>] 2 100 = [MoveTo 20 60, LineTo 60 20] \<and>
   calcScale 445 594 = 594 / 1872"
  using geometry_mapping [where pageWidth = 445 and pageHeight = 594]
        geometry_mapping [where pageWidth = 445 and surface = "[]" and pt = "\<lparr>X = 10, Y = 20\<rparr>"
          and pts = "[\<lparr>X = 30, Y = 40\<rparr>]" and scale = 2 and pageHeight = 100]
  by (simp del: drawPath.simps)

text \<open>
  Claim C6 at a concrete highlighter line of two points.
\<close>

theorem highlighter_band_witness:
  "BrushType highlighterLine = HighlighterV5 \<and>
   drawLine [] highlighterLine 2 1000 =
     [SetSourceRGBA 1 1 0 0.5, SetLineWidth 60, SetLineCap LINE_CAP_BUTT,
      MoveTo 200 570, LineTo 600 570, Stroke]"
  using highlighter_band [of highlighterLine "[]" 2 1000]
  by (simp add: highlighterLine_def penLine_def)

text \<open>
  Claim C7 at a concrete black pen line of size 2.
\<close>

theorem stroke_color_width_witness:
  "BrushType penLine \<noteq> Eraser \<and> BrushType penLine \<noteq> HighlighterV5 \<and> Points penLine \<noteq> [] \<and>
   drawLine [] penLine 2 1000 =
     [SetSourceRGB 0 0 0, SetLineWidth 1.2, SetLineCap LINE_CAP_ROUND, SetLineJoin LINE_JOIN_ROUND,
      MoveTo 200 600, LineTo 600 200, Stroke]"
  using stroke_color_width [of penLine "[]" 2 1000]
  by (simp add: penLine_def normalized_def)

text \<open>
  Claim C8 as stated fails: for \<open>BrushSize = 2.0\<close> the width is not 0.5, since
  \<open>2.0 * 6.0 - 10.8 = 1.2\<close> is not below the bound.
\<close>

theorem stroke_width_two_counterexample: "strokeWidth 2.0 \<noteq> 0.5"
  by (simp add: strokeWidth_def Let_def)

text \<open>
  Claim C8, amended. \<open>BrushSize = 2.0\<close> yields the width 1.2 (not clamped),
  \<open>BrushSize = 3.0\<close> yields 7.2, and the bound 0.5 is what a size such as 1.875
  yields, whose formula value 0.45 is below it.
\<close>

theorem stroke_width_examples:
  "strokeWidth 2.0 = 1.2 \<and> strokeWidth 3.0 = 7.2 \<and> strokeWidth 1.875 = 0.5"
  by (simp add: strokeWidth_def Let_def)

text \<open>
  Claim C1 as stated fails. In the document of three pages of which only page 2 has
  stroke data, rendered without \<^verbatim>\<open>AllPages\<close>, page 2 is the only page that is not
  skipped, and the last call issued on the surface is the page advance after it.
\<close>

theorem trailing_advance_counterexample:
  "filter (nonSkipped (options (gen False))) (Pages doc3) = [contentPage] \<and>
   Pages doc3 ! 1 = contentPage \<and>
   snd (snd (renderPages (gen False) doc3)) =
     [Save, SetSourceRGB 0 0 0, SetLineWidth 1.2, SetLineCap LINE_CAP_ROUND,
      SetLineJoin LINE_JOIN_ROUND, MoveTo (100 * (594 / 1872)) (594 - 200 * (594 / 1872)),
      LineTo (300 * (594 / 1872)) (594 - 400 * (594 / 1872)), Stroke, Restore, ShowPage] \<and>
   trailingAdvance (snd (snd (renderPages (gen False) doc3)))"
  by (simp add: renderPages_def firstPageSize_fixed pageStep_eq nonSkipped_def pageBody_def
        gen_def CreatePdfGenerator_def doc3_def contentPage_def blankPage_def penLine_def
        drawLine_def drawStroke_def strokeWidth_def normalized_def calcScale_def
        DeviceHeight_def DeviceWidth_def trailingAdvance_def Let_def)

text \<open>
  Claim C1, amended. The page loop never fails; its page counter ends at the number of
  source pages that are not skipped (pages with stroke data, or all pages under
  \<^verbatim>\<open>AllPages\<close>); when every page is skipped no call is issued on the surface, which
  is finished as it was created. Under \<^verbatim>\<open>AllPages\<close> a page advance follows every
  page; otherwise a page advance follows a rendered page exactly when the page counter
  is below the number of source pages, so that the advance after the last rendered page
  is left out only when no page was skipped. The document of three pages of which only
  page 2 has stroke data renders 1 page without \<^verbatim>\<open>AllPages\<close> and 3 pages with it.
\<close>

theorem page_sequencing:
  "fst (renderPages p zp) = None \<and>
   fst (snd (renderPages p zp)) = length (filter (nonSkipped (options p)) (Pages zp)) \<and>
   (fst (snd (renderPages p zp)) = 0 \<longrightarrow> snd (snd (renderPages p zp)) = []) \<and>
   pageAdvances (snd (snd (renderPages p zp))) =
     (if AllPages (options p) then length (Pages zp)
      else min (fst (snd (renderPages p zp))) (length (Pages zp) - 1)) \<and>
   (0 < fst (snd (renderPages p zp)) \<longrightarrow>
      trailingAdvance (snd (snd (renderPages p zp))) =
        (AllPages (options p) \<or> fst (snd (renderPages p zp)) < length (Pages zp))) \<and>
   fst (snd (renderPages (gen False) doc3)) = 1 \<and>
   fst (snd (renderPages (gen True) doc3)) = 3"
proof -
  let ?n = "length (Pages zp)"
  let ?m = "length (filter (nonSkipped (options p)) (Pages zp))"
  have rp: "renderPages q z = pageLoop q (length (Pages z)) 445 594 (Pages z) (0, [])" for q z
    by (simp add: renderPages_def firstPageSize_fixed)
  have a: "fst (renderPages p zp) = None"
    unfolding rp by (rule pageLoop_no_error)
  have b: "fst (snd (renderPages p zp)) = ?m"
    unfolding rp by (simp add: pageLoop_count)
  have c: "?m = 0 \<longrightarrow> snd (snd (renderPages p zp)) = []"
    unfolding rp using pageLoop_unchanged [of p "Pages zp" ?n 445 594 0 "[]"] by simp
  have d: "pageAdvances (snd (snd (renderPages p zp))) =
             (if AllPages (options p) then ?n else min ?m (?n - 1))"
  proof (cases "AllPages (options p)")
    case True
    then show ?thesis
      unfolding rp using pageLoop_advances_all [of p ?n 445 594 "Pages zp" 0 "[]"]
      by (simp add: pageAdvances_def)
  next
    case False
    then show ?thesis
      unfolding rp using pageLoop_advances_content [of p ?n 445 594 "Pages zp" 0 "[]"]
      by (simp add: pageAdvances_def)
  qed
  have e: "0 < ?m \<longrightarrow> trailingAdvance (snd (snd (renderPages p zp))) = (AllPages (options p) \<or> ?m < ?n)"
    unfolding rp using pageLoop_trailing [of p "Pages zp" 0 "[]" ?n 445 594] by auto
  have f: "length (filter (nonSkipped (options (gen False))) (Pages doc3)) = 1"
    by (simp add: nonSkipped_def gen_def CreatePdfGenerator_def doc3_def contentPage_def blankPage_def)
  have g: "length (filter (nonSkipped (options (gen True))) (Pages doc3)) = 3"
    by (simp add: nonSkipped_def gen_def CreatePdfGenerator_def doc3_def contentPage_def blankPage_def)
  have f': "fst (snd (renderPages (gen False) doc3)) = 1"
    unfolding rp by (simp add: pageLoop_count f)
  have g': "fst (snd (renderPages (gen True) doc3)) = 3"
    unfolding rp by (simp add: pageLoop_count g)
  show ?thesis using a b c d e f' g' by simp
qed

text \<open>
  Claim C1, amended, at the document of three pages: one page advance without
  \<^verbatim>\<open>AllPages\<close>, three with it.
\<close>

theorem page_sequencing_witness:
  "pageAdvances (snd (snd (renderPages (gen False) doc3))) = 1 \<and>
   pageAdvances (snd (snd (renderPages (gen True) doc3))) = 3 \<and>
   trailingAdvance (snd (snd (renderPages (gen True) doc3)))"
  using page_sequencing [of "gen False" doc3] page_sequencing [of "gen True" doc3]
  by (simp add: gen_def CreatePdfGenerator_def doc3_def)

subsection \<open>Generation modes\<close>







subsection \<open>The overlay path\<close>

text \<open>
  Claim C2 fails on the code. In the overlay path the annotations are rendered by
  \<^verbatim>\<open>generateAnnotationsOnly\<close>, which writes them to the output path, not to the
  temporary annotations file; that file stays empty. The merge therefore receives the
  background and an empty second input, and the output is what the merge makes of these
  two, not of the background and the rendered annotations.
\<close>

theorem overlay_merges_empty_annotations:
  "generateZip mergeOK (gen False) doc1 world0 =
     (None, world0\<lparr>files := [''out.pdf'' \<mapsto> fst (MergeRaw mergeOK [pdfBytes, []])], random := []\<rparr>) \<and>
   fst (MergeRaw mergeOK [pdfBytes, []]) = [4, 0x25, 0x50, 0x44, 0x46, 0] \<and>
   fst (MergeRaw mergeOK
          [pdfBytes, cairoPDF mergeOK 445 594 (snd (snd (renderPages (gen False) doc1)))])
     = [4, 0x25, 0x50, 0x44, 0x46, 2, 0x43, 9]"
proof -
  let ?p = "(gen False)\<lparr>backgroundPDF := Some pdfBytes, template := False\<rparr>"
  have z: "generateZip mergeOK (gen False) doc1 world0 = generateWithBackground mergeOK ?p doc1 world0"
    by (simp add: generateZip_def initBackgroundPages_def doc1_def pdfBytes_def mergeOK_def
          gen_def CreatePdfGenerator_def)
  have run: "generateWithBackground mergeOK ?p doc1 world0 =
           (case None of None \<Rightarrow> None | Some e \<Rightarrow> Some (''failed to merge PDFs: '' @ e),
            world0\<lparr>files := (files world0)(outputFilePath ?p \<mapsto> fst (MergeRaw mergeOK [pdfBytes, []])),
                   random := []\<rparr>)"
    by (rule generateWithBackground_run [where ?r1.0 = "''1''" and ?r2.0 = "''2''" and ?r3.0 = "''3''"])
       (simp_all add: world0_def gen_def CreatePdfGenerator_def tmpAnnotationsName_def
          tmpBackgroundName_def mergeOK_def)
  have calls: "length (snd (snd (renderPages (gen False) doc1))) = 9"
    by (simp add: renderPages_def firstPageSize_fixed pageStep_eq nonSkipped_def pageBody_def
        gen_def CreatePdfGenerator_def doc1_def contentPage_def penLine_def
        drawLine_def drawStroke_def normalized_def Let_def)
  have out: "outputFilePath ?p = ''out.pdf''"
    by (simp add: gen_def CreatePdfGenerator_def)
  show ?thesis
    unfolding z run out
    by (simp add: world0_def mergeOK_def pdfBytes_def calls)
qed

text \<open>
  Claim C3 as stated fails. With a merge that fails after writing one byte, the run
  returns the merge error and leaves a file of that one byte at the output path, where
  there was no file before.
\<close>

theorem merge_failure_counterexample:
  "files world0 ''out.pdf'' = None \<and>
   generateZip mergeFails (gen False) doc1 world0 =
     (Some ''failed to merge PDFs: EOF'', world0\<lparr>files := [''out.pdf'' \<mapsto> [0x25]], random := []\<rparr>)"
proof -
  let ?p = "(gen False)\<lparr>backgroundPDF := Some pdfBytes, template := False\<rparr>"
  have z: "generateZip mergeFails (gen False) doc1 world0 = generateWithBackground mergeFails ?p doc1 world0"
    by (simp add: generateZip_def initBackgroundPages_def doc1_def pdfBytes_def mergeOK_def
          mergeFails_def gen_def CreatePdfGenerator_def)
  have run: "generateWithBackground mergeFails ?p doc1 world0 =
           (case Some ''EOF'' of None \<Rightarrow> None | Some e \<Rightarrow> Some (''failed to merge PDFs: '' @ e),
            world0\<lparr>files := (files world0)(outputFilePath ?p \<mapsto> [0x25]), random := []\<rparr>)"
    by (rule generateWithBackground_run [where ?r1.0 = "''1''" and ?r2.0 = "''2''" and ?r3.0 = "''3''"])
       (simp_all add: world0_def gen_def CreatePdfGenerator_def tmpAnnotationsName_def
          tmpBackgroundName_def mergeOK_def mergeFails_def)
  show ?thesis
    unfolding z run
    by (simp add: world0_def gen_def CreatePdfGenerator_def)
qed

text \<open>
  Claim C3, amended. When the temporary files can be created and written and the merge
  fails, \<^verbatim>\<open>generateWithBackground\<close> returns the error
  \<^verbatim>\<open>failed to merge PDFs: \<close> followed by the cause; the output file has been created
  or truncated before the merge and holds the bytes the merge wrote before it failed;
  the temporary files are removed. The final output is not staged.
\<close>

theorem merge_failure_leaves_output:
  assumes "random w = r1 # r2 # r3 # rs"
    and "files w (tmpAnnotationsName r1) = None"
    and "files w (tmpAnnotationsName r2) = None"
    and "files w (tmpBackgroundName r3) = None"
    and "r1 \<noteq> r2"
    and "outputFilePath p \<noteq> tmpAnnotationsName r1"
    and "outputFilePath p \<noteq> tmpAnnotationsName r2"
    and "outputFilePath p \<noteq> tmpBackgroundName r3"
    and "createErr w (outputFilePath p) = None"
    and "writeErr w (outputFilePath p) = None"
    and "writeErr w (tmpBackgroundName r3) = None"
    and "MergeRaw E [case backgroundPDF p of None \<Rightarrow> [] | Some b \<Rightarrow> b, []] = (written, Some e)"
  shows "generateWithBackground E p zp w =
           (Some (''failed to merge PDFs: '' @ e),
            w\<lparr>files := (files w)(outputFilePath p \<mapsto> written), random := rs\<rparr>)"
  using generateWithBackground_run [OF assms, of zp] by simp

text \<open>
  Claim C3, amended, at a concrete document and a merge that fails after one byte.
\<close>

theorem merge_failure_leaves_output_witness:
  "generateWithBackground mergeFails ((gen False)\<lparr>backgroundPDF := Some pdfBytes\<rparr>) doc1 world0 =
     (Some ''failed to merge PDFs: EOF'', world0\<lparr>files := [''out.pdf'' \<mapsto> [0x25]], random := []\<rparr>)"
proof -
  let ?p = "(gen False)\<lparr>backgroundPDF := Some pdfBytes\<rparr>"
  have "generateWithBackground mergeFails ?p doc1 world0 =
           (Some (''failed to merge PDFs: '' @ ''EOF''),
            world0\<lparr>files := (files world0)(outputFilePath ?p \<mapsto> [0x25]), random := []\<rparr>)"
    by (rule merge_failure_leaves_output [where ?r1.0 = "''1''" and ?r2.0 = "''2''" and ?r3.0 = "''3''"])
       (simp_all add: world0_def gen_def CreatePdfGenerator_def tmpAnnotationsName_def
          tmpBackgroundName_def mergeOK_def mergeFails_def)
  then show ?thesis
    by (simp add: world0_def gen_def CreatePdfGenerator_def)
qed

end
